theory Spec2Isabelle
  imports Main "HOL-Library.AList"
begin

section \<open>The streaming hand-off: \<open>RedisRetrievalChain.streamer\<close>\<close>

text \<open>
  A value on the hand-off queue is a Python string or \<open>None\<close>.  The sentinel
  \<open>STOP_ITEM\<close> is imported from \<open>StreamingStdOutCallbackHandlerYield\<close>, which is not
  part of the sources at hand, so it is a parameter of everything below.
\<close>

datatype qval = Str string | NoneVal

text \<open>
  One call of \<open>self.queue.get(block=True, timeout=...)\<close> either returns the next value
  or raises \<open>queue.Empty\<close> once the timeout has passed.  The generator sees nothing of
  the queue but the outcomes of its successive pulls, so its environment is the
  sequence of these outcomes, indexed by the number of the pull.
\<close>

datatype pull = Got qval | Empty

text \<open>
  What a run of the generator, drained by its caller to the end, leaves behind: the
  values it yielded, in order,
  and the \<open>answer\<close> argument of every call of \<open>self.log\<close>.  (The session id and the
  question passed to \<open>log\<close> are fields that the generator never changes; the two
  durations are wall-clock readings.)
\<close>

record run =
  yielded :: "string list"
  logged :: "string list"

definition overload_message :: string where
  "overload_message = ''The server is overloaded, retry later. Thanks for your patience''"

text \<open>
  The \<open>while True\<close> loop.  \<open>i\<close> counts the pulls made so far, \<open>answer\<close> is the
  accumulator, \<open>ys\<close> the values yielded so far.  The loop has no bound of its own: it
  runs for as long as fragments keep arriving, and \<open>None\<close> stands for a run that never
  ends.
\<close>

partial_function (option) streamer_loop ::
  "qval \<Rightarrow> (nat \<Rightarrow> pull) \<Rightarrow> nat \<Rightarrow> string \<Rightarrow> string list \<Rightarrow> run option"
where
  "streamer_loop STOP_ITEM pulls i answer ys =
     (case pulls i of
        Empty \<Rightarrow>
          Some \<lparr>yielded = ys @ [overload_message], logged = [overload_message]\<rparr>
      | Got result \<Rightarrow>
          if result = STOP_ITEM \<or> result = NoneVal
          then Some \<lparr>yielded = ys, logged = [answer]\<rparr>
          else (case result of
                  Str s \<Rightarrow> streamer_loop STOP_ITEM pulls (Suc i) (answer @ s) (ys @ [s])
                | NoneVal \<Rightarrow> Some \<lparr>yielded = ys, logged = [answer]\<rparr>))"

definition streamer :: "qval \<Rightarrow> (nat \<Rightarrow> pull) \<Rightarrow> run option" where
  "streamer STOP_ITEM pulls = streamer_loop STOP_ITEM pulls 0 [] []"

text \<open>
  The pulls that deliver the values \<open>vs\<close> one after the other, each within the
  timeout, and continue as \<open>rest\<close>.
\<close>

definition deliver :: "qval list \<Rightarrow> (nat \<Rightarrow> pull) \<Rightarrow> nat \<Rightarrow> pull" where
  "deliver vs rest i = (if i < length vs then Got (vs ! i) else rest (i - length vs))"


section \<open>One conversation turn: \<open>RedisRetrievalChain.__ask_question\<close>\<close>

subsection \<open>Data\<close>

text \<open>
  The exceptions that can leave the code under study.  \<open>OpenAIError\<close> is the only one
  \<open>__ask_question\<close> catches; \<open>KeyError\<close> comes from a subscript on a dictionary that
  lacks the key; \<open>UnboundLocalError\<close> from reading a local variable that was never
  assigned; \<open>OtherException\<close> is any other exception of a collaborator.
\<close>

datatype exn =
    KeyError string
  | OpenAIError string
  | UnboundLocalError string
  | OtherException string

text \<open>One entry of the \<open>references\<close> dictionary.\<close>

record reference =
  title :: string
  genre :: string
  country :: string
  revenue :: string
  score :: string
  date_x :: string

text \<open>
  The \<open>references\<close> dictionary itself, in insertion order; \<open>AList.update\<close> is Python's
  \<open>d[k] = v\<close>: it overwrites the value of a key already present and appends a new key.
\<close>

type_synonym refs = "(string \<times> reference) list"

text \<open>
  A message of the session history.  \<open>add_user_message\<close> stores a message of type
  \<open>human\<close> without additional arguments.
\<close>

record message =
  msg_type :: string
  content :: string
  additional_kwargs :: refs

text \<open>
  One hit returned by \<open>llmcache.check\<close>; \<open>hit_metadata\<close> is \<open>None\<close> when the key
  \<open>'metadata'\<close> is not in the hit.
\<close>

record cache_hit =
  hit_id :: string
  response :: string
  hit_metadata :: "refs option"

text \<open>The arguments of one call of \<open>llmcache.store\<close>.\<close>

record cache_entry =
  prompt :: string
  stored_response :: string
  stored_metadata :: refs

text \<open>A retrieved document is used through its \<open>metadata\<close> dictionary only.\<close>

type_synonym document = "string \<rightharpoonup> string"

text \<open>The dictionary \<open>chatbot.invoke\<close> returns.\<close>

record chain_result =
  question :: string
  answer :: string
  generated_question :: string
  source_documents :: "document list"

text \<open>
  The configuration values the turn reads (module \<open>src.common.config\<close>, not part of
  the sources at hand).
\<close>

record config =
  MINIPILOT_CACHE_ENABLED :: bool
  MINIPILOT_HISTORY_LENGTH :: int

text \<open>
  What the external collaborators answer during this turn: the list
  \<open>llmcache.check\<close> returns when it is called, and the outcome of \<open>chatbot.invoke\<close>
  when it is called.
\<close>

record world =
  check_result :: "cache_hit list"
  invoke_result :: "exn + chain_result"

text \<open>
  Everything the turn can change.
  \<^item> \<open>history\<close>: the Redis list under the session's history key, leftmost element
    first.
  \<^item> \<open>q_puts\<close>: the values \<open>__ask_question\<close> itself puts on \<open>callback_fn.q\<close>, oldest
    first.  (The token callbacks fired by the chain during \<open>invoke\<close> belong to the
    callback handler class and are not recorded here.)
  \<^item> \<open>notified\<close>: the arguments of the calls of \<open>callback_fn.notify\<close>.
  \<^item> \<open>popularity\<close>: the popularity counter of every cache entry, by id.
  \<^item> \<open>cache_stores\<close>: the calls of \<open>llmcache.store\<close>.
  \<^item> \<open>warnings\<close>: the messages given to \<open>logging.warning\<close>.
  \<^item> \<open>llm_invocations\<close>: the number of calls of \<open>chatbot.invoke\<close>.
\<close>

record state =
  history :: "message list"
  q_puts :: "qval list"
  notified :: "string list"
  popularity :: "string \<Rightarrow> nat"
  cache_stores :: "cache_entry list"
  warnings :: "string list"
  llm_invocations :: nat

subsection \<open>The history store\<close>

text \<open>
  Modelled from the spec: the session history store is an external service
  (\<open>RedisChatMessageHistory\<close> over a Redis list), described as a list per session with
  the operations append, read, trim and clear, from which "older turns are trimmed from
  the tail".  A new message is pushed at the left end (\<open>LPUSH\<close>), so the left end holds
  the most recent message and the right end the oldest; \<open>clear\<close> deletes the list.
\<close>

definition add_message :: "message \<Rightarrow> state \<Rightarrow> state" where
  "add_message m s = s\<lparr>history := m # history s\<rparr>"

text \<open>\<open>HumanMessage(content=text)\<close> and
  \<open>BaseMessage(content=text, type="ai", additional_kwargs=kw)\<close>.\<close>

definition human_message :: "string \<Rightarrow> message" where
  "human_message text = \<lparr>msg_type = ''human'', content = text, additional_kwargs = []\<rparr>"

definition ai_message :: "string \<Rightarrow> refs \<Rightarrow> message" where
  "ai_message text kw = \<lparr>msg_type = ''ai'', content = text, additional_kwargs = kw\<rparr>"

definition add_user_message :: "string \<Rightarrow> state \<Rightarrow> state" where
  "add_user_message text s = add_message (human_message text) s"

definition clear :: "state \<Rightarrow> state" where
  "clear s = s\<lparr>history := []\<rparr>"

text \<open>\<open>llen\<close> and \<open>rpop key count\<close> of Redis: the latter removes up to \<open>count\<close> elements
  from the right end.\<close>

definition llen :: "state \<Rightarrow> int" where
  "llen s = int (length (history s))"

definition rpop :: "nat \<Rightarrow> state \<Rightarrow> state" where
  "rpop count s = s\<lparr>history := take (length (history s) - count) (history s)\<rparr>"

subsection \<open>The semantic cache\<close>

text \<open>
  Modelled from the spec: \<open>rate_cache_item\<close> is a method of the base class \<open>Core\<close>
  (\<open>src/core/Core.py\<close>, not part of the sources at hand).  The spec names the operation
  "increase-popularity(id)" and says that the entry's popularity counter increases by
  one.
\<close>

definition rate_cache_item :: "string \<Rightarrow> state \<Rightarrow> state" where
  "rate_cache_item i s = s\<lparr>popularity := (popularity s)(i := popularity s i + 1)\<rparr>"

definition store :: "string \<Rightarrow> string \<Rightarrow> refs \<Rightarrow> state \<Rightarrow> state" where
  "store p r m s =
     s\<lparr>cache_stores := cache_stores s @
          [\<lparr>prompt = p, stored_response = r, stored_metadata = m\<rparr>]\<rparr>"

subsection \<open>Collecting the references\<close>

definition bind_exn :: "exn + 'a \<Rightarrow> ('a \<Rightarrow> exn + 'b) \<Rightarrow> exn + 'b" where
  "bind_exn r f = (case r of Inl e \<Rightarrow> Inl e | Inr x \<Rightarrow> f x)"

text \<open>\<open>doc.metadata[k]\<close>.\<close>

definition subscript :: "document \<Rightarrow> string \<Rightarrow> exn + string" where
  "subscript doc k = (case doc k of None \<Rightarrow> Inl (KeyError k) | Some v \<Rightarrow> Inr v)"

text \<open>
  \<open>s.split('idx:')[-1]\<close>: the piece after the last occurrence of the separator, the
  whole string when the separator does not occur.  \<open>piece\<close> is the piece being read.
\<close>

fun split_last :: "string \<Rightarrow> string \<Rightarrow> string" where
  "split_last piece [] = piece"
| "split_last piece (c # cs) =
     (if take 4 (c # cs) = ''idx:'' then split_last [] (drop 3 cs)
      else split_last (piece @ [c]) cs)"

text \<open>
  \<open>str.strip()\<close> removes leading and trailing whitespace; these are the ASCII
  characters for which \<open>str.isspace\<close> holds.
\<close>

definition isspace :: "char \<Rightarrow> bool" where
  "isspace c =
     (c \<in> set [CHR 0x09, CHR 0x0A, CHR 0x0B, CHR 0x0C, CHR 0x0D,
                CHR 0x1C, CHR 0x1D, CHR 0x1E, CHR 0x1F, CHR 0x20])"

definition strip :: "string \<Rightarrow> string" where
  "strip s = rev (dropWhile isspace (rev (dropWhile isspace s)))"

text \<open>\<open>s.replace('\n', '')\<close>.\<close>

definition remove_newlines :: "string \<Rightarrow> string" where
  "remove_newlines s = filter (\<lambda>c. c \<noteq> CHR 0x0A) s"

text \<open>
  The pair a document adds to \<open>references\<close>.  Python evaluates the right-hand side of
  the assignment (the six fields, in this order) before the key.
\<close>

definition reference_of :: "document \<Rightarrow> exn + (string \<times> reference)" where
  "reference_of doc =
     bind_exn (subscript doc ''names'') (\<lambda>names.
     bind_exn (subscript doc ''genre'') (\<lambda>g.
     bind_exn (subscript doc ''country'') (\<lambda>c.
     bind_exn (subscript doc ''revenue'') (\<lambda>r.
     bind_exn (subscript doc ''score'') (\<lambda>sc.
     bind_exn (subscript doc ''date_x'') (\<lambda>d.
     bind_exn (subscript doc ''id'') (\<lambda>i.
       Inr (split_last [] i,
            \<lparr>title = remove_newlines (strip names), genre = g, country = c,
             revenue = r, score = sc, date_x = d\<rparr>))))))))"

fun collect_references :: "refs \<Rightarrow> document list \<Rightarrow> exn + refs" where
  "collect_references references [] = Inr references"
| "collect_references references (doc # docs) =
     (case reference_of doc of
        Inl e \<Rightarrow> Inl e
      | Inr (k, r) \<Rightarrow> collect_references (AList.update k r references) docs)"

subsection \<open>The turn\<close>

definition too_long_message :: string where
  "too_long_message = ''This conversation is too long, started a new one''"

definition q_put :: "qval \<Rightarrow> state \<Rightarrow> state" where
  "q_put v s = s\<lparr>q_puts := q_puts s @ [v]\<rparr>"

definition notify :: "string \<Rightarrow> state \<Rightarrow> state" where
  "notify m s = s\<lparr>notified := notified s @ [m]\<rparr>"

definition warning :: "string \<Rightarrow> state \<Rightarrow> state" where
  "warning m s = s\<lparr>warnings := warnings s @ [m]\<rparr>"

definition invoke :: "state \<Rightarrow> state" where
  "invoke s = s\<lparr>llm_invocations := Suc (llm_invocations s)\<rparr>"

text \<open>Lines 92 to 107: the branch taken when the cache is enabled and has a hit.\<close>

definition cache_hit_turn :: "qval \<Rightarrow> string \<Rightarrow> cache_hit \<Rightarrow> state \<Rightarrow> state" where
  "cache_hit_turn STOP_ITEM q hit s =
     (let s1 = q_put (Str (response hit)) s;
          s2 = q_put STOP_ITEM s1;
          s3 = rate_cache_item (hit_id hit) s2;
          metadata = (case hit_metadata hit of None \<Rightarrow> [] | Some m \<Rightarrow> m);
          s4 = add_user_message q s3
      in add_message (ai_message (response hit) metadata) s4)"

text \<open>Lines 119 to 122: the history is cut down to the configured length.\<close>

definition limit_history :: "config \<Rightarrow> state \<Rightarrow> state" where
  "limit_history cfg s =
     (let history_length = llen s
      in if history_length > MINIPILOT_HISTORY_LENGTH cfg
         then rpop (nat (history_length - MINIPILOT_HISTORY_LENGTH cfg)) s
         else s)"

text \<open>Lines 160 to 190: what follows a call of \<open>invoke\<close> that returned.\<close>

definition persist_turn ::
  "config \<Rightarrow> chain_result \<Rightarrow> state \<Rightarrow> (exn + chain_result option) \<times> state" where
  "persist_turn cfg result s =
     (case collect_references [] (source_documents result) of
        Inl e \<Rightarrow> (Inl e, s)
      | Inr references \<Rightarrow>
          (let s1 = add_user_message (question result) s;
               s2 = add_message (ai_message (answer result) references) s1;
               s3 = (if length references \<noteq> 0 \<and> MINIPILOT_CACHE_ENABLED cfg
                     then store (generated_question result) (answer result) references s2
                     else s2)
           in (Inr (Some result), s3)))"

text \<open>
  The whole method.  The result is what the method returns (\<open>None\<close> after a cache hit
  and after a provider error) or the exception that leaves it.
\<close>

definition ask_question ::
  "config \<Rightarrow> qval \<Rightarrow> world \<Rightarrow> string \<Rightarrow> state \<Rightarrow> (exn + chain_result option) \<times> state"
where
  "ask_question cfg STOP_ITEM w q s =
     (if MINIPILOT_CACHE_ENABLED cfg \<and> length (check_result w) > 0
      then (Inr None, cache_hit_turn STOP_ITEM q (hd (check_result w)) s)
      else
        (let s1 = invoke (limit_history cfg s)
         in case invoke_result w of
              Inr result \<Rightarrow> persist_turn cfg result s1
            | Inl (OpenAIError e) \<Rightarrow>
                (Inr None, clear (warning (''OpenAIError: '' @ e) (notify too_long_message s1)))
            | Inl e \<Rightarrow> (Inl e, s1)))"

section \<open>The ingestion worker: \<open>csv_loader_task\<close>\<close>

subsection \<open>The name of the index\<close>

text \<open>
  What \<open>datetime.now()\<close> returns: a local date and time with a resolution of one
  microsecond.
\<close>

record datetime =
  year :: nat
  month :: nat
  day :: nat
  hour :: nat
  minute :: nat
  second :: nat
  microsecond :: nat

text \<open>
  The ranges of the fields of a \<open>datetime\<close> whose year has four digits (the format
  \<open>%Y\<close> of other years depends on the platform).
\<close>

definition valid_datetime :: "datetime \<Rightarrow> bool" where
  "valid_datetime t =
     (1000 \<le> year t \<and> year t \<le> 9999 \<and> 1 \<le> month t \<and> month t \<le> 12 \<and>
      1 \<le> day t \<and> day t \<le> 31 \<and> hour t < 24 \<and> minute t < 60 \<and> second t < 60 \<and>
      microsecond t < 1000000)"

definition digit :: "nat \<Rightarrow> char" where
  "digit n = ''0123456789'' ! (n mod 10)"

text \<open>The formats \<open>%m\<close>, \<open>%d\<close>, \<open>%H\<close>, \<open>%M\<close>, \<open>%S\<close> (two digits) and \<open>%Y\<close> (four).\<close>

definition digits2 :: "nat \<Rightarrow> string" where
  "digits2 n = [digit (n div 10), digit n]"

definition digits4 :: "nat \<Rightarrow> string" where
  "digits4 n = [digit (n div 1000), digit (n div 100), digit (n div 10), digit n]"

text \<open>\<open>t.strftime('%Y%m%d_%H%M%S')\<close>.\<close>

definition strftime :: "datetime \<Rightarrow> string" where
  "strftime t =
     digits4 (year t) @ digits2 (month t) @ digits2 (day t) @ ''_'' @
     digits2 (hour t) @ digits2 (minute t) @ digits2 (second t)"

text \<open>
  Line 18.  \<open>stem\<close> is the value of \<open>get_filename_without_extension(filename)\<close>, a
  function of \<open>src.common.utils\<close> that is not part of the sources at hand.
\<close>

definition index_name :: "string \<Rightarrow> datetime \<Rightarrow> string" where
  "index_name stem now = ''minipilot_rag_'' @ stem @ ''_'' @ strftime now @ ''_idx''"

text \<open>The part of a \<open>datetime\<close> that the format prints.\<close>

definition to_the_second :: "datetime \<Rightarrow> nat \<times> nat \<times> nat \<times> nat \<times> nat \<times> nat" where
  "to_the_second t = (year t, month t, day t, hour t, minute t, second t)"

subsection \<open>The run\<close>

datatype log_entry = LoggedError exn | LoggedWarning string

text \<open>
  What a run leaves behind: the log, and the calls of \<open>Redis.from_texts\<close>, each with
  the name of the index and the texts written to it.
\<close>

record ingestion =
  log :: "log_entry list"
  written :: "(string \<times> string list) list"

text \<open>
  The collaborators of one run: the outcome of constructing \<open>OpenAIEmbeddings\<close> (the
  exception raised, or the client), whether \<open>conn.ft('minipilot_rag_alias').info()\<close>
  succeeds, the rows \<open>csv.DictReader\<close> reads from the file (or the exception \<open>open\<close>
  raises), the text splitter, the file name without its extension and the clock.
\<close>

record 'm collaborators =
  embeddings :: "exn + 'm"
  alias_exists :: bool
  rows :: "exn + (string \<times> string) list list"
  split_text :: "string \<Rightarrow> string list"
  get_filename_without_extension :: "string \<Rightarrow> string"
  now :: datetime

definition no_alias_message :: string where
  "no_alias_message =
     ''No alias exists for semantic search. Associate the alias to the desired index''"

text \<open>\<open>sep.join(parts)\<close>.\<close>

fun join :: "string \<Rightarrow> string list \<Rightarrow> string" where
  "join sep [] = []"
| "join sep [p] = p"
| "join sep (p # ps) = p @ sep @ join sep ps"

definition row_str :: "(string \<times> string) list \<Rightarrow> string" where
  "row_str row = join [CHR 0x0A] (map (\<lambda>(key, val). key @ '': '' @ val) row)"

text \<open>
  The \<open>for\<close> loop over the rows, lines 64 to 90.  \<open>embedding_model\<close> is the local
  variable of that name: \<open>None\<close> while it is unbound.  Python evaluates the arguments of
  \<open>Redis.from_texts\<close> before the call, so an unbound \<open>embedding_model\<close> raises before
  anything is written.
\<close>

fun ingest_rows ::
  "(string \<Rightarrow> string list) \<Rightarrow> 'm option \<Rightarrow> string \<Rightarrow> (string \<times> string) list list \<Rightarrow>
   ingestion \<Rightarrow> (exn + unit) \<times> ingestion"
where
  "ingest_rows split embedding_model name [] s = (Inr (), s)"
| "ingest_rows split embedding_model name (row # later) s =
     (let splits = split (row_str row)
      in if length splits > 0
         then (case embedding_model of
                 None \<Rightarrow> (Inl (UnboundLocalError ''embedding_model''), s)
               | Some m \<Rightarrow>
                   ingest_rows split embedding_model name later
                     (s\<lparr>written := written s @ [(name, splits)]\<rparr>))
         else ingest_rows split embedding_model name later s)"

definition csv_loader_task ::
  "'m collaborators \<Rightarrow> string \<Rightarrow> ingestion \<Rightarrow> (exn + unit) \<times> ingestion" where
  "csv_loader_task c filename s =
     (let name = index_name (get_filename_without_extension c filename) (now c);
          (embedding_model, s1) =
             (case embeddings c of
                Inr m \<Rightarrow> (Some m, s)
              | Inl e \<Rightarrow> (None, s\<lparr>log := log s @ [LoggedError e]\<rparr>));
          s2 = (if alias_exists c then s1
                else s1\<lparr>log := log s1 @ [LoggedWarning no_alias_message]\<rparr>)
      in case rows c of
           Inl e \<Rightarrow> (Inl e, s2)
         | Inr rs \<Rightarrow> ingest_rows (split_text c) embedding_model name rs s2)"

section \<open>Properties of the streamer\<close>

subsection \<open>The loop over a prefix of fragments\<close>

lemma streamer_loop_fragment:
  assumes "pulls i = Got (Str s)" and "Str s \<noteq> STOP_ITEM"
  shows "streamer_loop STOP_ITEM pulls i acc ys =
         streamer_loop STOP_ITEM pulls (Suc i) (acc @ s) (ys @ [s])"
  using assms by (subst streamer_loop.simps) simp

lemma streamer_loop_stop:
  assumes "pulls i = Got v" and "v = STOP_ITEM \<or> v = NoneVal"
  shows "streamer_loop STOP_ITEM pulls i acc ys = Some \<lparr>yielded = ys, logged = [acc]\<rparr>"
  using assms by (subst streamer_loop.simps) auto

lemma streamer_loop_empty:
  assumes "pulls i = Empty"
  shows "streamer_loop STOP_ITEM pulls i acc ys =
         Some \<lparr>yielded = ys @ [overload_message], logged = [overload_message]\<rparr>"
  using assms by (subst streamer_loop.simps) simp

lemma streamer_loop_fragments:
  assumes "\<forall>k < length fs. pulls (i + k) = Got (Str (fs ! k))"
    and "\<forall>f \<in> set fs. Str f \<noteq> STOP_ITEM"
  shows "streamer_loop STOP_ITEM pulls i acc ys =
         streamer_loop STOP_ITEM pulls (i + length fs) (acc @ concat fs) (ys @ fs)"
  using assms
proof (induction fs arbitrary: i acc ys)
  case Nil
  then show ?case by simp
next
  case (Cons f fs)
  from Cons.prems(1) have here: "pulls i = Got (Str f)"
    by (metis add.right_neutral length_greater_0_conv list.distinct(1) nth_Cons_0)
  from Cons.prems(2) have ne: "Str f \<noteq> STOP_ITEM"
    by simp
  have later: "\<forall>k < length fs. pulls (Suc i + k) = Got (Str (fs ! k))"
  proof (intro allI impI)
    fix k assume "k < length fs"
    then have "pulls (i + Suc k) = Got (Str ((f # fs) ! Suc k))"
      using Cons.prems(1) by (metis Suc_less_eq length_Cons)
    then show "pulls (Suc i + k) = Got (Str (fs ! k))"
      by simp
  qed
  have "streamer_loop STOP_ITEM pulls i acc ys =
        streamer_loop STOP_ITEM pulls (Suc i) (acc @ f) (ys @ [f])"
    using here ne by (rule streamer_loop_fragment)
  also have "\<dots> = streamer_loop STOP_ITEM pulls (Suc i + length fs)
                     ((acc @ f) @ concat fs) ((ys @ [f]) @ fs)"
    using Cons.IH [OF later] Cons.prems(2) by simp
  finally show ?case
    by simp
qed

text \<open>
  The loop ends only on a timeout, the sentinel or \<open>None\<close>: while fragments keep
  arriving, the run has no result.
\<close>

lemma streamer_loop_endless:
  assumes "\<forall>k. \<exists>f. pulls k = Got (Str f) \<and> Str f \<noteq> STOP_ITEM"
  shows "streamer_loop STOP_ITEM pulls i acc ys = None"
proof (rule ccontr)
  assume "streamer_loop STOP_ITEM pulls i acc ys \<noteq> None"
  then obtain r where "streamer_loop STOP_ITEM pulls i acc ys = Some r"
    by auto
  then show False
    using assms
  proof (induction rule: streamer_loop.raw_induct [rotated 1, consumes 1])
    case (1 loop stop p k a zs r)
    from "1.prems" obtain f where f: "p k = Got (Str f)" "Str f \<noteq> stop"
      by blast
    with "1.hyps" have "loop stop p (Suc k) (a @ f) (zs @ [f]) = Some r"
      by auto
    then show False
      using "1.IH" "1.prems" by blast
  qed
qed

lemma deliver_fragments:
  "\<forall>k < length fs. deliver (map Str fs @ vs) rest (0 + k) = Got (Str (fs ! k))"
  by (simp add: deliver_def nth_append)

lemma deliver_next:
  "deliver (map Str fs @ v # vs) rest (0 + length fs) = Got v"
  by (simp add: deliver_def nth_append)

lemma deliver_rest:
  "deliver (map Str fs) rest (0 + length fs) = rest 0"
  by (simp add: deliver_def)

subsection \<open>Fragments followed by the sentinel\<close>

text \<open>
  Claim C1.  When the fragments \<open>fs\<close>, none of them equal to the sentinel, arrive one
  after the other within the timeout and the sentinel arrives after them, the generator
  ends, it has yielded exactly \<open>fs\<close> in the order of arrival, and it has logged once,
  with the concatenation of the fragments as the answer.  Whatever the queue would
  deliver after the sentinel (\<open>rest\<close>) plays no part.
\<close>

theorem streamer_yields_fragments_in_order:
  assumes "\<forall>f \<in> set fs. Str f \<noteq> STOP_ITEM"
  shows "streamer STOP_ITEM (deliver (map Str fs @ [STOP_ITEM]) rest) =
         Some \<lparr>yielded = fs, logged = [concat fs]\<rparr>"
proof -
  let ?pulls = "deliver (map Str fs @ [STOP_ITEM]) rest"
  have "streamer STOP_ITEM ?pulls =
        streamer_loop STOP_ITEM ?pulls (0 + length fs) ([] @ concat fs) ([] @ fs)"
    unfolding streamer_def using deliver_fragments assms by (rule streamer_loop_fragments)
  also have "\<dots> = Some \<lparr>yielded = [] @ fs, logged = [[] @ concat fs]\<rparr>"
    using deliver_next by (rule streamer_loop_stop) simp
  finally show ?thesis
    by simp
qed

theorem streamer_yields_fragments_in_order_witness:
  "Str ''Hel'' \<noteq> Str ''[END]'' \<and> Str ''lo'' \<noteq> Str ''[END]'' \<and>
   streamer (Str ''[END]'') (deliver (map Str [''Hel'', ''lo''] @ [Str ''[END]'']) (\<lambda>k. Empty)) =
     Some \<lparr>yielded = [''Hel'', ''lo''], logged = [''Hello'']\<rparr>"
  using streamer_yields_fragments_in_order [of "[''Hel'', ''lo'']" "Str ''[END]''" "\<lambda>k. Empty"]
  by simp

subsection \<open>Timeout\<close>

text \<open>
  Claim C2.  When a pull times out after the fragments \<open>fs\<close> have been yielded
  (\<open>fs\<close> may be empty or of any length), the generator yields the fixed overload
  message once, logs once with that message as the answer, and ends: whatever arrives
  later (\<open>rest\<close> from its second pull on) is not pulled.
\<close>

theorem streamer_timeout:
  assumes "\<forall>f \<in> set fs. Str f \<noteq> STOP_ITEM" and "rest 0 = Empty"
  shows "streamer STOP_ITEM (deliver (map Str fs) rest) =
         Some \<lparr>yielded = fs @ [overload_message], logged = [overload_message]\<rparr>"
proof -
  let ?pulls = "deliver (map Str fs) rest"
  have frags: "\<forall>k < length fs. ?pulls (0 + k) = Got (Str (fs ! k))"
    using deliver_fragments [of fs "[]" rest] by simp
  have "?pulls (0 + length fs) = Empty"
    using assms(2) deliver_rest [of fs rest] by simp
  then have "streamer_loop STOP_ITEM ?pulls (0 + length fs) ([] @ concat fs) ([] @ fs) =
        Some \<lparr>yielded = ([] @ fs) @ [overload_message], logged = [overload_message]\<rparr>"
    by (rule streamer_loop_empty)
  moreover have "streamer STOP_ITEM ?pulls =
        streamer_loop STOP_ITEM ?pulls (0 + length fs) ([] @ concat fs) ([] @ fs)"
    unfolding streamer_def using frags assms(1) by (rule streamer_loop_fragments)
  ultimately show ?thesis
    by simp
qed

theorem streamer_timeout_witness:
  "Str ''Hel'' \<noteq> Str ''[END]'' \<and> Str ''lo'' \<noteq> Str ''[END]'' \<and>
   (\<lambda>k. if k = 0 then Empty else Got (Str ''late'')) 0 = Empty \<and>
   streamer (Str ''[END]'')
     (deliver (map Str [''Hel'', ''lo'']) (\<lambda>k. if k = 0 then Empty else Got (Str ''late''))) =
     Some \<lparr>yielded = [''Hel'', ''lo'', overload_message], logged = [overload_message]\<rparr>"
  using streamer_timeout [of "[''Hel'', ''lo'']" "Str ''[END]''"
      "\<lambda>k. if k = 0 then Empty else Got (Str ''late'')"]
  by simp

subsection \<open>The sentinel as first value\<close>

text \<open>
  Claim C9.  When the first value pulled is the sentinel, the generator ends without
  yielding anything, in particular without the overload message, and logs the empty
  answer.
\<close>

theorem streamer_sentinel_first:
  "streamer STOP_ITEM (deliver (STOP_ITEM # later) rest) = Some \<lparr>yielded = [], logged = [[]]\<rparr>"
  unfolding streamer_def
  by (rule streamer_loop_stop [where v = STOP_ITEM]) (simp_all add: deliver_def)

theorem streamer_sentinel_first_witness:
  "streamer (Str ''[END]'') (deliver (Str ''[END]'' # [Str ''lost'']) (\<lambda>k. Empty)) =
     Some \<lparr>yielded = [], logged = [[]]\<rparr>"
  using streamer_sentinel_first [of "Str ''[END]''" "[Str ''lost'']" "\<lambda>k. Empty"]
  by simp

subsection \<open>\<open>None\<close> on the queue\<close>

text \<open>
  Claim C10.  A \<open>None\<close> pulled after the fragments \<open>fs\<close> ends the generator as the
  sentinel does: \<open>None\<close> is not yielded, the answer accumulated so far is logged, and
  the values enqueued after it (\<open>later\<close>) are never delivered.
\<close>

theorem streamer_none_is_sentinel:
  assumes "\<forall>f \<in> set fs. Str f \<noteq> STOP_ITEM"
  shows "streamer STOP_ITEM (deliver (map Str fs @ NoneVal # later) rest) =
         Some \<lparr>yielded = fs, logged = [concat fs]\<rparr>"
proof -
  let ?pulls = "deliver (map Str fs @ NoneVal # later) rest"
  have "streamer STOP_ITEM ?pulls =
        streamer_loop STOP_ITEM ?pulls (0 + length fs) ([] @ concat fs) ([] @ fs)"
    unfolding streamer_def using deliver_fragments assms by (rule streamer_loop_fragments)
  also have "\<dots> = Some \<lparr>yielded = [] @ fs, logged = [[] @ concat fs]\<rparr>"
    using deliver_next by (rule streamer_loop_stop) simp
  finally show ?thesis
    by simp
qed

theorem streamer_none_is_sentinel_witness:
  "Str ''Hel'' \<noteq> Str ''[END]'' \<and> Str ''lo'' \<noteq> Str ''[END]'' \<and>
   streamer (Str ''[END]'')
     (deliver (map Str [''Hel'', ''lo''] @ NoneVal # [Str ''lost'', Str ''[END]'']) (\<lambda>k. Empty)) =
     Some \<lparr>yielded = [''Hel'', ''lo''], logged = [''Hello'']\<rparr>"
  using streamer_none_is_sentinel
    [of "[''Hel'', ''lo'']" "Str ''[END]''" "[Str ''lost'', Str ''[END]'']" "\<lambda>k. Empty"]
  by simp

section \<open>Properties of the conversation turn\<close>

subsection \<open>The steps of the turn\<close>

lemma limit_history_take:
  "history (limit_history cfg s) =
     (if int (length (history s)) > MINIPILOT_HISTORY_LENGTH cfg
      then take (nat (MINIPILOT_HISTORY_LENGTH cfg)) (history s) else history s)"
proof -
  have "length (history s) - nat (int (length (history s)) - MINIPILOT_HISTORY_LENGTH cfg) =
        nat (MINIPILOT_HISTORY_LENGTH cfg)"
    if "int (length (history s)) > MINIPILOT_HISTORY_LENGTH cfg"
    using that by linarith
  then show ?thesis
    by (simp add: limit_history_def llen_def rpop_def Let_def)
qed

lemma limit_history_other:
  "q_puts (limit_history cfg s) = q_puts s"
  "notified (limit_history cfg s) = notified s"
  "popularity (limit_history cfg s) = popularity s"
  "cache_stores (limit_history cfg s) = cache_stores s"
  "warnings (limit_history cfg s) = warnings s"
  "llm_invocations (limit_history cfg s) = llm_invocations s"
  by (simp_all add: limit_history_def rpop_def Let_def)

lemma ask_question_hit:
  assumes "MINIPILOT_CACHE_ENABLED cfg" and "check_result w = hit # others"
  shows "ask_question cfg STOP_ITEM w q s = (Inr None, cache_hit_turn STOP_ITEM q hit s)"
  using assms by (simp add: ask_question_def)

lemma ask_question_miss:
  assumes "\<not> (MINIPILOT_CACHE_ENABLED cfg \<and> check_result w \<noteq> [])"
  shows "ask_question cfg STOP_ITEM w q s =
         (case invoke_result w of
            Inr result \<Rightarrow> persist_turn cfg result (invoke (limit_history cfg s))
          | Inl (OpenAIError e) \<Rightarrow>
              (Inr None, clear (warning (''OpenAIError: '' @ e)
                                 (notify too_long_message (invoke (limit_history cfg s)))))
          | Inl e \<Rightarrow> (Inl e, invoke (limit_history cfg s)))"
  using assms by (auto simp add: ask_question_def Let_def)

lemma update_not_Nil: "AList.update k v al \<noteq> []"
  by (cases al) simp_all

lemma collect_references_not_Nil:
  "collect_references acc docs = Inr references \<Longrightarrow>
   (references \<noteq> []) = (acc \<noteq> [] \<or> docs \<noteq> [])"
proof (induction docs arbitrary: acc)
  case Nil
  then show ?case by auto
next
  case (Cons doc docs)
  then show ?case
    by (auto simp: update_not_Nil split: sum.splits prod.splits)
qed

lemma persist_turn_ok:
  assumes "collect_references [] (source_documents result) = Inr references"
  shows "persist_turn cfg result s =
         (Inr (Some result),
          (if references \<noteq> [] \<and> MINIPILOT_CACHE_ENABLED cfg
           then store (generated_question result) (answer result) references
           else (\<lambda>s. s))
            (add_message (ai_message (answer result) references)
              (add_user_message (question result) s)))"
  using assms by (simp add: persist_turn_def Let_def)

lemma history_full_turn:
  assumes "\<not> (MINIPILOT_CACHE_ENABLED cfg \<and> check_result w \<noteq> [])"
    and "invoke_result w = Inr result"
    and "collect_references [] (source_documents result) = Inr references"
  shows "history (snd (ask_question cfg STOP_ITEM w q s)) =
           ai_message (answer result) references # human_message (question result) #
           history (limit_history cfg s)"
  unfolding ask_question_miss [OF assms(1)]
  by (simp add: assms(2) persist_turn_ok [OF assms(3)] store_def add_message_def
      add_user_message_def invoke_def)

lemma example_references:
  "collect_references []
     [[''names'' \<mapsto> '' Avatar'' @ [CHR 0x0A], ''genre'' \<mapsto> ''Action'', ''country'' \<mapsto> ''US'',
       ''revenue'' \<mapsto> ''2923'', ''score'' \<mapsto> ''78'', ''date_x'' \<mapsto> ''1260000000'',
       ''id'' \<mapsto> ''doc:minipilot_idx:42'']] =
   Inr [(''42'', \<lparr>title = ''Avatar'', genre = ''Action'', country = ''US'', revenue = ''2923'',
                   score = ''78'', date_x = ''1260000000''\<rparr>)]"
  by (simp add: reference_of_def bind_exn_def subscript_def strip_def isspace_def
      remove_newlines_def)

subsection \<open>The cache hit\<close>

text \<open>
  Claim C4.  With the cache enabled and at least one hit returned by the similarity
  check, the turn returns \<open>None\<close> and changes the state in exactly three places: the
  response of the first hit and then the sentinel are put on the hand-off queue; the
  popularity of that hit goes up by one (and no other counter changes); the user
  message with the original question and then the AI message with the cached response
  and the cached metadata (the empty dictionary when the hit has none) are pushed on the
  history.  Everything else is as before: in particular \<open>llm_invocations\<close>, so no call
  of the chain is made, and \<open>cache_stores\<close>.
\<close>

theorem cache_hit_short_circuit:
  assumes "MINIPILOT_CACHE_ENABLED cfg" and "check_result w = hit # others"
  shows "ask_question cfg STOP_ITEM w q s =
         (Inr None,
          s\<lparr>history :=
               ai_message (response hit) (case hit_metadata hit of None \<Rightarrow> [] | Some m \<Rightarrow> m) #
               human_message q # history s,
            q_puts := q_puts s @ [Str (response hit), STOP_ITEM],
            popularity := (popularity s)(hit_id hit := popularity s (hit_id hit) + 1)\<rparr>)"
  unfolding ask_question_hit [OF assms]
  by (simp add: cache_hit_turn_def q_put_def rate_cache_item_def add_user_message_def
      add_message_def Let_def)

theorem cache_hit_short_circuit_witness:
  "ask_question
      \<lparr>MINIPILOT_CACHE_ENABLED = True, MINIPILOT_HISTORY_LENGTH = 4\<rparr>
      (Str ''[END]'')
      \<lparr>check_result = [\<lparr>hit_id = ''llmcache:1'', response = ''Avatar'', hit_metadata = None\<rparr>],
       invoke_result = Inl (OtherException ''not called'')\<rparr>
      ''best movie?''
      \<lparr>history = [], q_puts = [], notified = [], popularity = (\<lambda>i. 0), cache_stores = [],
       warnings = [], llm_invocations = 0\<rparr> =
    (Inr None,
     \<lparr>history = [ai_message ''Avatar'' [], human_message ''best movie?''],
      q_puts = [Str ''Avatar'', Str ''[END]''], notified = [],
      popularity = (\<lambda>i. 0)(''llmcache:1'' := 1), cache_stores = [],
      warnings = [], llm_invocations = 0\<rparr>)"
  using cache_hit_short_circuit
    [of "\<lparr>MINIPILOT_CACHE_ENABLED = True, MINIPILOT_HISTORY_LENGTH = 4\<rparr>"
        "\<lparr>check_result = [\<lparr>hit_id = ''llmcache:1'', response = ''Avatar'', hit_metadata = None\<rparr>],
          invoke_result = Inl (OtherException ''not called'')\<rparr>"
        "\<lparr>hit_id = ''llmcache:1'', response = ''Avatar'', hit_metadata = None\<rparr>" "[]"
        "Str ''[END]''" "''best movie?''"
        "\<lparr>history = [], q_puts = [], notified = [], popularity = (\<lambda>i. 0), cache_stores = [],
          warnings = [], llm_invocations = 0\<rparr>"]
  by simp

subsection \<open>Writing to the cache\<close>

text \<open>
  Claim C5.  On the full path (cache disabled, or no hit), when the chain returns and
  the references are collected without error, there is at least one reference exactly
  when there is at least one source document, and the cache receives one new entry
  exactly when it is enabled and there is at least one reference; that entry has the
  generated question as prompt, the answer as response and the references as metadata.
  Otherwise nothing is stored.
\<close>

theorem cache_write_iff_references:
  assumes "\<not> (MINIPILOT_CACHE_ENABLED cfg \<and> check_result w \<noteq> [])"
    and "invoke_result w = Inr result"
    and "collect_references [] (source_documents result) = Inr references"
  shows "(references \<noteq> []) = (source_documents result \<noteq> []) \<and>
         cache_stores (snd (ask_question cfg STOP_ITEM w q s)) =
           (if MINIPILOT_CACHE_ENABLED cfg \<and> references \<noteq> []
            then cache_stores s @
                 [\<lparr>prompt = generated_question result, stored_response = answer result,
                   stored_metadata = references\<rparr>]
            else cache_stores s)"
proof
  show "(references \<noteq> []) = (source_documents result \<noteq> [])"
    using collect_references_not_Nil [OF assms(3)] by simp
  show "cache_stores (snd (ask_question cfg STOP_ITEM w q s)) =
           (if MINIPILOT_CACHE_ENABLED cfg \<and> references \<noteq> []
            then cache_stores s @
                 [\<lparr>prompt = generated_question result, stored_response = answer result,
                   stored_metadata = references\<rparr>]
            else cache_stores s)"
    unfolding ask_question_miss [OF assms(1)]
    by (simp add: assms(2) persist_turn_ok [OF assms(3)] store_def add_message_def
        add_user_message_def invoke_def limit_history_other)
qed

theorem cache_write_iff_references_witness:
  "cache_stores (snd (ask_question
      \<lparr>MINIPILOT_CACHE_ENABLED = True, MINIPILOT_HISTORY_LENGTH = 4\<rparr>
      (Str ''[END]'')
      \<lparr>check_result = [],
       invoke_result = Inr
         \<lparr>question = ''and the best one?'', answer = ''Avatar'',
          generated_question = ''Which movie is the best?'',
          source_documents =
            [[''names'' \<mapsto> '' Avatar'' @ [CHR 0x0A], ''genre'' \<mapsto> ''Action'',
              ''country'' \<mapsto> ''US'', ''revenue'' \<mapsto> ''2923'', ''score'' \<mapsto> ''78'',
              ''date_x'' \<mapsto> ''1260000000'', ''id'' \<mapsto> ''doc:minipilot_idx:42'']]\<rparr>\<rparr>
      ''and the best one?''
      \<lparr>history = [], q_puts = [], notified = [], popularity = (\<lambda>i. 0), cache_stores = [],
       warnings = [], llm_invocations = 0\<rparr>)) =
    [\<lparr>prompt = ''Which movie is the best?'', stored_response = ''Avatar'',
      stored_metadata =
        [(''42'', \<lparr>title = ''Avatar'', genre = ''Action'', country = ''US'',
                   revenue = ''2923'', score = ''78'', date_x = ''1260000000''\<rparr>)]\<rparr>]"
  (is "cache_stores (snd (ask_question ?cfg ?stop ?w ?q ?s)) = _")
proof -
  have miss: "\<not> (MINIPILOT_CACHE_ENABLED ?cfg \<and> check_result ?w \<noteq> [])"
    by simp
  have ok: "invoke_result ?w = Inr (projr (invoke_result ?w))"
    by simp
  have refs: "collect_references [] (source_documents (projr (invoke_result ?w))) =
    Inr [(''42'', \<lparr>title = ''Avatar'', genre = ''Action'', country = ''US'',
                   revenue = ''2923'', score = ''78'', date_x = ''1260000000''\<rparr>)]"
    using example_references by simp
  show ?thesis
    using cache_write_iff_references [OF miss ok refs, of ?stop ?q ?s] by simp
qed

subsection \<open>The provider error\<close>

text \<open>
  Claim C6.  On the full path, when the chain raises \<open>OpenAIError\<close>, the turn returns
  \<open>None\<close>; the callback handler is notified with the fixed message, one warning is
  logged, the history is empty afterwards, and nothing is stored in the cache (the only
  other change is the count of the call that failed).
\<close>

theorem provider_error_resets_session:
  assumes "\<not> (MINIPILOT_CACHE_ENABLED cfg \<and> check_result w \<noteq> [])"
    and "invoke_result w = Inl (OpenAIError e)"
  shows "ask_question cfg STOP_ITEM w q s =
         (Inr None,
          s\<lparr>history := [],
            notified := notified s @ [too_long_message],
            warnings := warnings s @ [''OpenAIError: '' @ e],
            llm_invocations := Suc (llm_invocations s)\<rparr>)"
  unfolding ask_question_miss [OF assms(1)]
  by (simp add: assms(2) clear_def warning_def notify_def invoke_def limit_history_def
      rpop_def Let_def)

theorem provider_error_resets_session_witness:
  "ask_question
      \<lparr>MINIPILOT_CACHE_ENABLED = True, MINIPILOT_HISTORY_LENGTH = 4\<rparr>
      (Str ''[END]'')
      \<lparr>check_result = [], invoke_result = Inl (OpenAIError ''context_length_exceeded'')\<rparr>
      ''and then?''
      \<lparr>history = [ai_message ''a1'' [], human_message ''q1''], q_puts = [], notified = [],
       popularity = (\<lambda>i. 0), cache_stores = [], warnings = [], llm_invocations = 0\<rparr> =
    (Inr None,
     \<lparr>history = [], q_puts = [], notified = [too_long_message],
      popularity = (\<lambda>i. 0), cache_stores = [],
      warnings = [''OpenAIError: context_length_exceeded''], llm_invocations = 1\<rparr>)"
  (is "ask_question ?cfg ?stop ?w ?q ?s = _")
proof -
  have miss: "\<not> (MINIPILOT_CACHE_ENABLED ?cfg \<and> check_result ?w \<noteq> [])"
    by simp
  have err: "invoke_result ?w = Inl (OpenAIError ''context_length_exceeded'')"
    by simp
  show ?thesis
    using provider_error_resets_session [OF miss err, of ?stop ?q ?s] by simp
qed

subsection \<open>The length of the history\<close>

text \<open>
  Claim C3, as the code has it.  The history is cut before the chain runs, not after
  the turn.  When the store holds more entries than \<open>MINIPILOT_HISTORY_LENGTH\<close> (an
  entry is one message; a turn is two of them), the cut leaves exactly the
  \<open>MINIPILOT_HISTORY_LENGTH\<close> most recent entries, and a successful turn on the full
  path then pushes its two messages in front of them: the store ends with
  \<open>MINIPILOT_HISTORY_LENGTH + 2\<close> entries.
\<close>

theorem history_after_full_turn:
  assumes "\<not> (MINIPILOT_CACHE_ENABLED cfg \<and> check_result w \<noteq> [])"
    and "invoke_result w = Inr result"
    and "collect_references [] (source_documents result) = Inr references"
    and "int (length (history s)) > MINIPILOT_HISTORY_LENGTH cfg"
  shows "history (limit_history cfg s) = take (nat (MINIPILOT_HISTORY_LENGTH cfg)) (history s) \<and>
         length (history (limit_history cfg s)) = nat (MINIPILOT_HISTORY_LENGTH cfg) \<and>
         history (snd (ask_question cfg STOP_ITEM w q s)) =
           ai_message (answer result) references # human_message (question result) #
           take (nat (MINIPILOT_HISTORY_LENGTH cfg)) (history s) \<and>
         length (history (snd (ask_question cfg STOP_ITEM w q s))) =
           nat (MINIPILOT_HISTORY_LENGTH cfg) + 2"
proof -
  have trimmed: "history (limit_history cfg s) = take (nat (MINIPILOT_HISTORY_LENGTH cfg)) (history s)"
    using assms(4) by (simp add: limit_history_take)
  have len: "length (take (nat (MINIPILOT_HISTORY_LENGTH cfg)) (history s)) =
             nat (MINIPILOT_HISTORY_LENGTH cfg)"
    using assms(4) by simp
  have after: "history (snd (ask_question cfg STOP_ITEM w q s)) =
           ai_message (answer result) references # human_message (question result) #
           take (nat (MINIPILOT_HISTORY_LENGTH cfg)) (history s)"
    unfolding ask_question_miss [OF assms(1)]
    by (simp add: assms(2) persist_turn_ok [OF assms(3)] store_def add_message_def
        add_user_message_def invoke_def trimmed)
  show ?thesis
    using trimmed len after by simp
qed

theorem history_after_full_turn_witness:
  "history (snd (ask_question
      \<lparr>MINIPILOT_CACHE_ENABLED = False, MINIPILOT_HISTORY_LENGTH = 2\<rparr>
      (Str ''[END]'')
      \<lparr>check_result = [],
       invoke_result = Inr \<lparr>question = ''q3'', answer = ''a3'', generated_question = ''q3'',
                             source_documents = []\<rparr>\<rparr>
      ''q3''
      \<lparr>history = [ai_message ''a2'' [], human_message ''q2'',
                  ai_message ''a1'' [], human_message ''q1''],
       q_puts = [], notified = [], popularity = (\<lambda>i. 0), cache_stores = [], warnings = [],
       llm_invocations = 0\<rparr>)) =
    [ai_message ''a3'' [], human_message ''q3'', ai_message ''a2'' [], human_message ''q2'']"
  (is "history (snd (ask_question ?cfg ?stop ?w ?q ?s)) = _")
proof -
  have miss: "\<not> (MINIPILOT_CACHE_ENABLED ?cfg \<and> check_result ?w \<noteq> [])"
    by simp
  have ok: "invoke_result ?w = Inr (projr (invoke_result ?w))"
    by simp
  have refs: "collect_references [] (source_documents (projr (invoke_result ?w))) = Inr []"
    by simp
  have long: "int (length (history ?s)) > MINIPILOT_HISTORY_LENGTH ?cfg"
    by simp
  show ?thesis
    using history_after_full_turn [OF miss ok refs long, of ?stop ?q] by simp
qed

text \<open>
  Claim C3 as stated fails: with \<open>MINIPILOT_HISTORY_LENGTH = 4\<close> and a store of ten
  messages (five turns), the store holds six messages (three turns) when the next
  successful turn has completed, neither four messages nor four turns.
\<close>

theorem history_after_turn_counterexample:
  "length (history (snd (ask_question
      \<lparr>MINIPILOT_CACHE_ENABLED = False, MINIPILOT_HISTORY_LENGTH = 4\<rparr>
      (Str ''[END]'')
      \<lparr>check_result = [],
       invoke_result = Inr \<lparr>question = ''q6'', answer = ''a6'', generated_question = ''q6'',
                             source_documents = []\<rparr>\<rparr>
      ''q6''
      \<lparr>history = concat (map (\<lambda>t. [ai_message (''a'' @ t) [], human_message (''q'' @ t)])
                            [''5'', ''4'', ''3'', ''2'', ''1'']),
       q_puts = [], notified = [], popularity = (\<lambda>i. 0), cache_stores = [], warnings = [],
       llm_invocations = 0\<rparr>))) = 6"
  (is "length (history (snd (ask_question ?cfg ?stop ?w ?q ?s))) = 6")
proof -
  have miss: "\<not> (MINIPILOT_CACHE_ENABLED ?cfg \<and> check_result ?w \<noteq> [])"
    by simp
  have ok: "invoke_result ?w = Inr (projr (invoke_result ?w))"
    by simp
  have refs: "collect_references [] (source_documents (projr (invoke_result ?w))) = Inr []"
    by simp
  show ?thesis
    unfolding history_full_turn [OF miss ok refs]
    by (simp add: limit_history_take)
qed

section \<open>Properties of the ingestion worker\<close>

subsection \<open>The printed timestamp determines the date and time to the second\<close>

lemma digit_eq_iff: "(digit m = digit n) = (m mod 10 = n mod 10)"
proof -
  have "distinct ''0123456789''"
    by simp
  moreover have "m mod 10 < length ''0123456789''" "n mod 10 < length ''0123456789''"
    by simp_all
  ultimately show ?thesis
    unfolding digit_def by (rule nth_eq_iff_index_eq)
qed

lemma two_digits: "n mod 100 = 10 * (n div 10 mod 10) + n mod (10::nat)"
  using mod_mult2_eq [of n 10 10] by simp

lemma digits2_eq_iff:
  assumes "m < 100" and "n < 100"
  shows "(digits2 m = digits2 n) = (m = n)"
proof
  assume "digits2 m = digits2 n"
  then have "m div 10 mod 10 = n div 10 mod 10" and "m mod 10 = n mod 10"
    by (simp_all add: digits2_def digit_eq_iff)
  then have "m mod 100 = n mod 100"
    by (simp add: two_digits)
  with assms show "m = n"
    by simp
qed simp

lemma digits4_eq_iff:
  assumes "m < 10000" and "n < 10000"
  shows "(digits4 m = digits4 n) = (m = n)"
proof
  assume eq: "digits4 m = digits4 n"
  have thousands: "k div 1000 = k div 100 div 10" for k :: nat
    by (simp add: div_mult2_eq [symmetric])
  from eq have "m div 100 div 10 mod 10 = n div 100 div 10 mod 10"
    and "m div 100 mod 10 = n div 100 mod 10"
    and "m div 10 mod 10 = n div 10 mod 10" and "m mod 10 = n mod 10"
    by (simp_all add: digits4_def digit_eq_iff thousands)
  then have high: "m div 100 mod 100 = n div 100 mod 100" and low: "m mod 100 = n mod 100"
    by (simp_all add: two_digits)
  from assms have "m div 100 < 100" and "n div 100 < 100"
    by simp_all
  with high have "m div 100 = n div 100"
    by simp
  with low show "m = n"
    by (metis div_mult_mod_eq)
qed simp

lemma length_digits [simp]: "length (digits2 n) = 2" "length (digits4 n) = 4"
  by (simp_all add: digits2_def digits4_def)

lemma length_strftime [simp]: "length (strftime t) = 15"
  by (simp add: strftime_def)

lemma strftime_eq_iff:
  assumes "valid_datetime t1" and "valid_datetime t2"
  shows "(strftime t1 = strftime t2) = (to_the_second t1 = to_the_second t2)"
proof -
  have "(strftime t1 = strftime t2) =
        (digits4 (year t1) = digits4 (year t2) \<and> digits2 (month t1) = digits2 (month t2) \<and>
         digits2 (day t1) = digits2 (day t2) \<and> digits2 (hour t1) = digits2 (hour t2) \<and>
         digits2 (minute t1) = digits2 (minute t2) \<and> digits2 (second t1) = digits2 (second t2))"
    by (simp add: strftime_def)
  also have "\<dots> = (to_the_second t1 = to_the_second t2)"
    using assms
    by (simp add: valid_datetime_def to_the_second_def digits2_eq_iff digits4_eq_iff)
  finally show ?thesis .
qed

lemma index_name_eq_strftime:
  "(index_name a t1 = index_name b t2) = (a = b \<and> strftime t1 = strftime t2)"
proof -
  have "(a @ ''_'' @ strftime t1 @ ''_idx'' = b @ ''_'' @ strftime t2 @ ''_idx'') =
        (a = b \<and> ''_'' @ strftime t1 @ ''_idx'' = ''_'' @ strftime t2 @ ''_idx'')"
    by (rule append_eq_append_conv) simp
  then show ?thesis
    by (simp add: index_name_def)
qed

subsection \<open>When two index names are equal\<close>

text \<open>
  Claim C8, as the code has it.  The name is built from the file name without its
  extension and from the timestamp printed to the second.  For timestamps with
  four-digit years, two runs get the same index name exactly when they have the same
  file name without extension and their timestamps agree to the second: runs over the
  same file started in different seconds get different indexes.
\<close>

theorem index_name_collides_iff:
  assumes "valid_datetime t1" and "valid_datetime t2"
  shows "(index_name a t1 = index_name b t2) = (a = b \<and> to_the_second t1 = to_the_second t2)"
  by (simp add: index_name_eq_strftime strftime_eq_iff [OF assms])

theorem index_name_collides_iff_witness:
  "index_name ''movies''
     \<lparr>year = 2024, month = 5, day = 17, hour = 9, minute = 30, second = 0, microsecond = 0\<rparr> \<noteq>
   index_name ''movies''
     \<lparr>year = 2024, month = 5, day = 17, hour = 9, minute = 30, second = 1, microsecond = 0\<rparr>"
  using index_name_collides_iff
    [of "\<lparr>year = 2024, month = 5, day = 17, hour = 9, minute = 30, second = 0, microsecond = 0\<rparr>"
        "\<lparr>year = 2024, month = 5, day = 17, hour = 9, minute = 30, second = 1, microsecond = 0\<rparr>"
        "''movies''" "''movies''"]
  by (simp add: valid_datetime_def to_the_second_def)

text \<open>
  Claim C8 as stated fails: two runs over the same file at two different instants of
  the same second generate the same index name.
\<close>

theorem index_name_collision_counterexample:
  "\<lparr>year = 2024, month = 5, day = 17, hour = 9, minute = 30, second = 0, microsecond = 100\<rparr> \<noteq>
   \<lparr>year = 2024, month = 5, day = 17, hour = 9, minute = 30, second = 0, microsecond = 900000\<rparr> \<and>
   index_name ''movies''
     \<lparr>year = 2024, month = 5, day = 17, hour = 9, minute = 30, second = 0, microsecond = 100\<rparr> =
   index_name ''movies''
     \<lparr>year = 2024, month = 5, day = 17, hour = 9, minute = 30, second = 0, microsecond = 900000\<rparr>"
  by (simp add: index_name_def strftime_def)

subsection \<open>A run with an embedding client\<close>

text \<open>
  With the client constructed, every row that yields at least one chunk is written to
  the index of the run, in the order of the file.
\<close>

lemma ingest_rows_bound:
  "ingest_rows split (Some m) name rs s =
     (Inr (), s\<lparr>written := written s @
        map (\<lambda>row. (name, split (row_str row)))
          (filter (\<lambda>row. split (row_str row) \<noteq> []) rs)\<rparr>)"
  by (induction rs arbitrary: s) (simp_all add: Let_def)

subsection \<open>A run whose embedding client could not be constructed\<close>

text \<open>
  After the failure is logged the run goes on: the alias is checked, the file is opened
  and the rows are read and split.  The run ends normally when no row yields a chunk;
  otherwise the first row that does makes it read the variable \<open>embedding_model\<close>, which
  was never assigned.  Nothing is written either way.
\<close>

lemma ingest_rows_unbound:
  "ingest_rows split None name rs s =
     (if \<forall>row \<in> set rs. split (row_str row) = [] then Inr ()
      else Inl (UnboundLocalError ''embedding_model''), s)"
  by (induction rs) (simp_all add: Let_def)

lemma csv_loader_task_failed_embeddings:
  assumes "embeddings c = Inl e" and "rows c = Inr rs"
  shows "csv_loader_task c filename s =
     (if \<forall>row \<in> set rs. split_text c (row_str row) = [] then Inr ()
      else Inl (UnboundLocalError ''embedding_model''),
      s\<lparr>log := log s @ LoggedError e #
                 (if alias_exists c then [] else [LoggedWarning no_alias_message])\<rparr>)"
  using assms by (simp add: csv_loader_task_def ingest_rows_unbound Let_def)

text \<open>
  Claim C7 says that the run does not proceed past the failed construction and that no
  row is processed.  On a file with one row, with the alias missing, the run logs the
  error, then logs the warning about the alias, then reads and splits the row and is
  ended by the \<open>UnboundLocalError\<close> raised at the call of \<open>Redis.from_texts\<close>; nothing has
  been written.
\<close>

theorem failed_embeddings_run:
  "csv_loader_task
     \<lparr>embeddings = Inl (OtherException ''Did not find openai_api_key''),
      alias_exists = False,
      rows = Inr [[(''names'', ''Avatar''), (''genre'', ''Action'')]],
      split_text = (\<lambda>text. [text]),
      get_filename_without_extension = (\<lambda>f. ''movies''),
      now = \<lparr>year = 2024, month = 5, day = 17, hour = 9, minute = 30, second = 0,
              microsecond = 0\<rparr>\<rparr>
     ''movies.csv'' \<lparr>log = [], written = []\<rparr> =
   (Inl (UnboundLocalError ''embedding_model'') :: exn + unit,
    \<lparr>log = [LoggedError (OtherException ''Did not find openai_api_key''),
            LoggedWarning no_alias_message],
     written = []\<rparr>)"
  by (subst csv_loader_task_failed_embeddings
        [where e = "OtherException ''Did not find openai_api_key''"
           and rs = "[[(''names'', ''Avatar''), (''genre'', ''Action'')]]"])
     (simp_all add: row_str_def)

end
